theory Spec2Isabelle
  imports Main
begin

section \<open>The transaction manager of transaction.py\<close>

text \<open>
  A shallow embedding of the class \<open>TransactionManager\<close>. The object is a record that
  every method takes and returns; \<open>datetime.now()\<close> is the argument \<open>now\<close> of the
  method that reads the clock (each method reads it at most once); an exception is a
  value returned beside the state the method has reached when it is raised, since the
  mutations made before a raise stay.
\<close>

subsection \<open>Time\<close>

text \<open>
  A \<open>datetime\<close> is counted in microseconds from \<open>datetime.min\<close> (0001-01-01 00:00:00);
  \<open>datetime.max\<close> is 9999-12-31 23:59:59.999999, the last microsecond of day 3652059.
  \<open>timedelta(days=d)\<close> raises OverflowError beyond 999999999 days, and so does a
  subtraction whose result leaves the range of \<open>datetime\<close> (the texts of these two
  exceptions are abridged here: the interpreter's first names the number of days).
\<close>

type_synonym time = int

definition us_per_day :: int where
  "us_per_day = 86400000000"

definition datetime_min :: time where
  "datetime_min = 0"

definition datetime_max :: time where
  "datetime_max = 3652059 * us_per_day - 1"

subsection \<open>Exceptions\<close>

text \<open>
  An exception is its class and its text \<open>str(e)\<close>. The classes are those the module
  raises (\<open>TransactionError\<close>), those the interpreter raises in it (\<open>IndexError\<close>,
  \<open>OverflowError\<close>) and any other subclass of \<open>Exception\<close> a callable of the caller
  raises, by name. Only instances of \<open>Exception\<close> are values of this type: the signals
  that are not (KeyboardInterrupt, SystemExit, GeneratorExit) end the program rather
  than fail an operation, and are outside the model, so \<open>except Exception\<close> is a handler
  for every value of \<open>exn\<close>.
\<close>

datatype exn_class = TransactionError | IndexError | OverflowError | OtherException string

datatype exn = Exn (exn_class: exn_class) (str: string)

definition timedelta_days :: "int \<Rightarrow> exn + int" where
  "timedelta_days d =
     (if \<bar>d\<bar> > 999999999
      then Inl (Exn OverflowError ''days out of range; must have magnitude <= 999999999'')
      else Inr (d * us_per_day))"

definition datetime_sub :: "time \<Rightarrow> int \<Rightarrow> exn + time" where
  "datetime_sub t delta =
     (if t - delta < datetime_min \<or> datetime_max < t - delta
      then Inl (Exn OverflowError ''date value out of range'')
      else Inr (t - delta))"

subsection \<open>Data\<close>

text \<open>
  An entry of a frame's \<open>'actions'\<close> list is a dict with the keys \<open>'type'\<close>,
  \<open>'timestamp'\<close> and, when \<open>add_action\<close> wrote it, \<open>'details'\<close>. A log entry is a dict
  with \<open>'start_time'\<close>, \<open>'actions'\<close>, \<open>'status'\<close> and, once written, \<open>'end_time'\<close>. A key
  that is absent is \<open>None\<close>.
\<close>

record 'd audit_entry =
  entry_type :: string
  details :: "'d option"
  timestamp :: time

record 'd log_entry =
  start_time :: time
  actions :: "'d audit_entry list"
  status :: string
  end_time :: "time option"

text \<open>
  A rollback action is a callable without arguments. It acts on the world \<open>'w\<close> outside
  the manager and may read the manager's log (it is a closure, and
  \<open>get_transaction_log\<close> hands the log out); it returns the new world and the exception
  it raised, if any. An action that changes the manager itself is not modelled.
\<close>

type_synonym ('d, 'w) action = "'d log_entry list \<Rightarrow> 'w \<Rightarrow> exn option \<times> 'w"

record ('d, 'w) manager =
  transaction_stack :: "('d, 'w) action list list"
  rollback_actions :: "('d, 'w) action list"
  transaction_log :: "'d log_entry list"

text \<open>\<open>xs[-1] = f(xs[-1])\<close>, for a list that is not empty.\<close>

definition upd_last :: "('a \<Rightarrow> 'a) \<Rightarrow> 'a list \<Rightarrow> 'a list" where
  "upd_last f xs = xs[length xs - 1 := f (xs ! (length xs - 1))]"

subsection \<open>Methods\<close>

definition init :: "('d, 'w) manager" where
  "init = \<lparr>transaction_stack = [], rollback_actions = [], transaction_log = []\<rparr>"

definition begin_transaction :: "time \<Rightarrow> ('d, 'w) manager \<Rightarrow> ('d, 'w) manager" where
  "begin_transaction now s =
     s\<lparr>transaction_stack := transaction_stack s @ [[]],
       transaction_log := transaction_log s @
         [\<lparr>start_time = now, actions = [], status = ''in_progress'', end_time = None\<rparr>]\<rparr>"

text \<open>
  \<open>add_rollback_action\<close> appends to the top frame first and indexes the log afterwards:
  when the log is empty, \<open>self.transaction_log[-1]\<close> raises IndexError with the action
  already on the stack.
\<close>

definition add_rollback_action ::
  "('d, 'w) action \<Rightarrow> time \<Rightarrow> ('d, 'w) manager \<Rightarrow> exn option \<times> ('d, 'w) manager" where
  "add_rollback_action action now s =
     (if transaction_stack s \<noteq> [] then
        let s1 = s\<lparr>transaction_stack := upd_last (\<lambda>frame. frame @ [action]) (transaction_stack s)\<rparr>
        in if transaction_log s1 = [] then (Some (Exn IndexError ''list index out of range''), s1)
           else (None, s1\<lparr>transaction_log :=
                   upd_last (\<lambda>e. e\<lparr>actions := actions e @
                       [\<lparr>entry_type = ''rollback_action'', details = None, timestamp = now\<rparr>]\<rparr>)
                     (transaction_log s1)\<rparr>)
      else (None, s))"

definition add_action ::
  "string \<Rightarrow> 'd \<Rightarrow> time \<Rightarrow> ('d, 'w) manager \<Rightarrow> ('d, 'w) manager" where
  "add_action action_type dets now s =
     (if transaction_log s \<noteq> [] then
        s\<lparr>transaction_log :=
            upd_last (\<lambda>e. e\<lparr>actions := actions e @
                [\<lparr>entry_type = action_type, details = Some dets, timestamp = now\<rparr>]\<rparr>)
              (transaction_log s)\<rparr>
      else s)"

definition commit :: "time \<Rightarrow> ('d, 'w) manager \<Rightarrow> ('d, 'w) manager" where
  "commit now s =
     (if transaction_stack s \<noteq> [] then
        let s1 = s\<lparr>transaction_stack := butlast (transaction_stack s)\<rparr>
        in if transaction_log s1 \<noteq> [] then
             s1\<lparr>transaction_log :=
                 upd_last (\<lambda>e. e\<lparr>status := ''committed'', end_time := Some now\<rparr>)
                   (transaction_log s1)\<rparr>
           else s1
      else s)"

text \<open>
  The loop of \<open>rollback\<close> over \<open>reversed(actions)\<close>: the first action that raises ends
  it with a \<open>TransactionError\<close> made of the text of what was raised.
\<close>

fun run_actions ::
  "'d log_entry list \<Rightarrow> ('d, 'w) action list \<Rightarrow> 'w \<Rightarrow> exn option \<times> 'w" where
  "run_actions lg [] w = (None, w)"
| "run_actions lg (action # rest) w =
     (case action lg w of
        (None, w') \<Rightarrow> run_actions lg rest w'
      | (Some e, w') \<Rightarrow> (Some (Exn TransactionError (''Rollback failed: '' @ str e)), w'))"

definition rollback ::
  "time \<Rightarrow> ('d, 'w) manager \<Rightarrow> 'w \<Rightarrow> exn option \<times> ('d, 'w) manager \<times> 'w" where
  "rollback now s w =
     (if transaction_stack s \<noteq> [] then
        let acts = last (transaction_stack s);
            s1 = s\<lparr>transaction_stack := butlast (transaction_stack s)\<rparr>;
            s2 = (if transaction_log s1 \<noteq> [] then
                    s1\<lparr>transaction_log :=
                        upd_last (\<lambda>e. e\<lparr>status := ''rolled_back'', end_time := Some now\<rparr>)
                          (transaction_log s1)\<rparr>
                  else s1)
        in case run_actions (transaction_log s2) (rev acts) w of
             (r, w') \<Rightarrow> (r, s2, w')
      else (None, s, w))"

definition get_transaction_log :: "('d, 'w) manager \<Rightarrow> 'd log_entry list" where
  "get_transaction_log s = transaction_log s"

text \<open>
  The context manager \<open>transaction\<close>. The body of the \<open>with\<close> statement is \<open>work\<close>: it
  uses the manager and the world and ends normally or with an exception. \<open>t_begin\<close> is
  the clock at \<open>begin_transaction\<close>, \<open>t_end\<close> the clock at the \<open>commit\<close> or the
  \<open>rollback\<close>. An exception of \<open>rollback\<close> leaves the handler in place of the
  \<open>TransactionError\<close> the handler would raise.
\<close>

type_synonym ('d, 'w) work =
  "('d, 'w) manager \<Rightarrow> 'w \<Rightarrow> exn option \<times> ('d, 'w) manager \<times> 'w"

definition transaction ::
  "('d, 'w) work \<Rightarrow> time \<Rightarrow> time \<Rightarrow> ('d, 'w) manager \<Rightarrow> 'w
     \<Rightarrow> exn option \<times> ('d, 'w) manager \<times> 'w" where
  "transaction work t_begin t_end s w =
     (case work (begin_transaction t_begin s) w of
        (None, s1, w1) \<Rightarrow> (None, commit t_end s1, w1)
      | (Some e, s1, w1) \<Rightarrow>
          (case rollback t_end s1 w1 of
             (Some r, s2, w2) \<Rightarrow> (Some r, s2, w2)
           | (None, s2, w2) \<Rightarrow>
               (Some (Exn TransactionError (''Transaction failed: '' @ str e)), s2, w2)))"

definition clear_logs ::
  "int \<Rightarrow> time \<Rightarrow> ('d, 'w) manager \<Rightarrow> exn option \<times> ('d, 'w) manager" where
  "clear_logs older_than_days now s =
     (case timedelta_days older_than_days of
        Inl e \<Rightarrow> (Some e, s)
      | Inr delta \<Rightarrow>
          (case datetime_sub now delta of
             Inl e \<Rightarrow> (Some e, s)
           | Inr cutoff_date \<Rightarrow>
               (None, s\<lparr>transaction_log :=
                  filter (\<lambda>log. start_time log > cutoff_date) (transaction_log s)\<rparr>)))"

subsection \<open>Observing which actions run\<close>

text \<open>
  \<open>traced i a\<close> is the action \<open>a\<close> that also appends \<open>i\<close> to a trace kept in the world
  when it is called (before its result is known, so a call that raises is in the
  trace). \<open>traced_all\<close> numbers a list of actions by position, from 0.
\<close>

definition traced :: "nat \<Rightarrow> ('d, 'w) action \<Rightarrow> ('d, 'w \<times> nat list) action" where
  "traced i a = (\<lambda>lg (w, tr). case a lg w of (r, w') \<Rightarrow> (r, (w', tr @ [i])))"

definition traced_all :: "('d, 'w) action list \<Rightarrow> ('d, 'w \<times> nat list) action list" where
  "traced_all acts = map (\<lambda>(i, a). traced i a) (enumerate 0 acts)"

subsection \<open>The history of a frame\<close>

text \<open>
  \<open>frame_on_top s0 t0 acts s\<close>: \<open>s\<close> is reached from \<open>s0\<close> by \<open>begin_transaction\<close> at
  \<open>t0\<close> and then any calls that leave the frame it pushed on top of the stack, and
  \<open>acts\<close> are the actions registered in that frame, in the order of the calls of
  \<open>add_rollback_action\<close> (one that raises IndexError has registered its action all
  the same). Between them come calls of \<open>add_action\<close> and \<open>clear_logs\<close> and whole
  nested transactions, begun above the frame and closed by \<open>commit\<close> or \<open>rollback\<close>.
\<close>

inductive frame_on_top ::
  "('d, 'w) manager \<Rightarrow> time \<Rightarrow> ('d, 'w) action list \<Rightarrow> ('d, 'w) manager \<Rightarrow> bool" where
  begun: "frame_on_top s0 t0 [] (begin_transaction t0 s0)"
| registered: "frame_on_top s0 t0 acts s \<Longrightarrow>
     frame_on_top s0 t0 (acts @ [a]) (snd (add_rollback_action a t s))"
| noted: "frame_on_top s0 t0 acts s \<Longrightarrow> frame_on_top s0 t0 acts (add_action ty d t s)"
| cleared: "frame_on_top s0 t0 acts s \<Longrightarrow> frame_on_top s0 t0 acts (snd (clear_logs n t s))"
| nested_commit: "frame_on_top s0 t0 acts s \<Longrightarrow> frame_on_top s t1 acts1 s1 \<Longrightarrow>
     frame_on_top s0 t0 acts (commit t s1)"
| nested_rollback: "frame_on_top s0 t0 acts s \<Longrightarrow> frame_on_top s t1 acts1 s1 \<Longrightarrow>
     frame_on_top s0 t0 acts (fst (snd (rollback t s1 w)))"

text \<open>
  \<open>newest_on_top s0 t0 acts s\<close>: as above, and no other frame has been begun since,
  and \<open>clear_logs\<close> has not removed the log entry that this \<open>begin_transaction\<close>
  appended. These are the states in which the frame on top of the stack and the last
  entry of the log come from the same call of \<open>begin_transaction\<close>.
\<close>

inductive newest_on_top ::
  "('d, 'w) manager \<Rightarrow> time \<Rightarrow> ('d, 'w) action list \<Rightarrow> ('d, 'w) manager \<Rightarrow> bool"
  for s0 :: "('d, 'w) manager" and t0 :: time where
  newest_begun: "newest_on_top s0 t0 [] (begin_transaction t0 s0)"
| newest_registered: "newest_on_top s0 t0 acts s \<Longrightarrow>
     newest_on_top s0 t0 (acts @ [a]) (snd (add_rollback_action a t s))"
| newest_noted: "newest_on_top s0 t0 acts s \<Longrightarrow> newest_on_top s0 t0 acts (add_action ty d t s)"
| newest_cleared: "newest_on_top s0 t0 acts s \<Longrightarrow> clear_logs n t s = (None, s') \<Longrightarrow>
     last (transaction_log s) \<in> set (transaction_log s') \<Longrightarrow> newest_on_top s0 t0 acts s'"

subsection \<open>Example inputs\<close>

text \<open>
  A clock reading, 2024-01-01 00:00:00 (day 738886 of the calendar), and one second.
  Actions on a world that is a list of lines: \<open>emit l\<close> writes the line \<open>l\<close>,
  \<open>failing m\<close> raises \<open>RuntimeError(m)\<close>, and \<open>probe_failing m\<close> writes the status of
  every log entry it can see and then raises \<open>RuntimeError(m)\<close>. A unit of work for the
  context manager: \<open>work_raising a m\<close> registers the rollback action \<open>a\<close> one second
  after 2024-01-01 00:00:00 and raises \<open>ValueError(m)\<close>.
\<close>

definition jan_2024 :: time where
  "jan_2024 = 738885 * us_per_day"

definition second :: int where
  "second = 1000000"

definition emit :: "string \<Rightarrow> ('d, string list) action" where
  "emit l = (\<lambda>lg w. (None, w @ [l]))"

definition failing :: "string \<Rightarrow> ('d, 'w) action" where
  "failing m = (\<lambda>lg w. (Some (Exn (OtherException ''RuntimeError'') m), w))"

definition probe_failing :: "string \<Rightarrow> ('d, string list) action" where
  "probe_failing m = (\<lambda>lg w. (Some (Exn (OtherException ''RuntimeError'') m), w @ map status lg))"

definition work_raising :: "('d, 'w) action \<Rightarrow> string \<Rightarrow> ('d, 'w) work" where
  "work_raising a m =
     (\<lambda>s w. (Some (Exn (OtherException ''ValueError'') m),
              snd (add_rollback_action a (jan_2024 + second) s), w))"

text \<open>
  States for the examples. \<open>abc_frame\<close>: a frame in which A, B and C are registered in
  that order, numbered 0, 1, 2, with a nested transaction begun and committed between
  A and B. \<open>a_boom_c_frame\<close>: a frame in which A, an action that raises, and C are
  registered in that order. \<open>probing_frame\<close>: a frame with one action that notes the
  statuses in the log and raises. \<open>old_and_recent\<close>: two committed transactions, begun
  40 days and 5 days before 2024-01-01 00:00:00.
\<close>

definition abc_frame :: "(unit, string list \<times> nat list) manager" where
  "abc_frame =
     snd (add_rollback_action (traced 2 (emit ''C'')) (jan_2024 + 5 * second)
       (snd (add_rollback_action (traced 1 (emit ''B'')) (jan_2024 + 4 * second)
         (commit (jan_2024 + 3 * second)
           (begin_transaction (jan_2024 + 2 * second)
             (snd (add_rollback_action (traced 0 (emit ''A'')) (jan_2024 + second)
               (begin_transaction jan_2024 init))))))))"

definition a_boom_c_frame :: "(unit, string list \<times> nat list) manager" where
  "a_boom_c_frame =
     snd (add_rollback_action (traced 2 (emit ''C'')) (jan_2024 + 3 * second)
       (snd (add_rollback_action (traced 1 (failing ''boom'')) (jan_2024 + 2 * second)
         (snd (add_rollback_action (traced 0 (emit ''A'')) (jan_2024 + second)
           (begin_transaction jan_2024 init))))))"

definition probing_frame :: "(unit, string list) manager" where
  "probing_frame =
     snd (add_rollback_action (probe_failing ''boom'') (jan_2024 + second)
       (begin_transaction jan_2024 init))"

definition old_and_recent :: "(unit, unit) manager" where
  "old_and_recent =
     commit (jan_2024 - 5 * us_per_day + second)
       (begin_transaction (jan_2024 - 5 * us_per_day)
         (commit (jan_2024 - 40 * us_per_day + second)
           (begin_transaction (jan_2024 - 40 * us_per_day) init)))"

section \<open>Properties\<close>

lemmas method_defs =
  begin_transaction_def add_rollback_action_def add_action_def commit_def rollback_def
  clear_logs_def timedelta_days_def datetime_sub_def upd_last_def init_def Let_def

lemmas clock_defs = us_per_day_def datetime_min_def datetime_max_def jan_2024_def second_def

lemma upd_last_snoc [simp]: "upd_last f (xs @ [x]) = xs @ [f x]"
  by (simp add: upd_last_def nth_append)

subsection \<open>What rollback raises\<close>

lemma run_actions_append:
  "run_actions lg (xs @ ys) w =
     (case run_actions lg xs w of
        (None, w') \<Rightarrow> run_actions lg ys w'
      | (Some e, w') \<Rightarrow> (Some e, w'))"
  by (induction xs arbitrary: w) (auto split: prod.splits option.splits)

lemma run_actions_raises:
  "run_actions lg acts w = (Some x, w') \<Longrightarrow>
     \<exists>c. x = Exn TransactionError (''Rollback failed: '' @ str c)"
  by (induction acts arbitrary: w) (auto split: prod.splits option.splits)

lemma rollback_raises:
  fixes s :: "('d, 'w) manager"
  assumes "rollback now s w = (Some x, s', w')"
  shows "\<exists>c. x = Exn TransactionError (''Rollback failed: '' @ str c)"
proof -
  have "\<exists>(lg :: 'd log_entry list) (acts :: ('d, 'w) action list).
          run_actions lg acts w = (Some x, w')"
    using assms by (auto simp add: rollback_def Let_def split: if_splits prod.splits)
  then show ?thesis by (blast dest: run_actions_raises)
qed

subsection \<open>The frame on top of the stack\<close>

lemma clear_logs_stack [simp]:
  "transaction_stack (snd (clear_logs n t s)) = transaction_stack s"
  by (simp add: clear_logs_def split: sum.splits)

lemma commit_pops: "transaction_stack s = below @ [acts] \<Longrightarrow>
    transaction_stack (commit t s) = below"
  by (simp add: commit_def Let_def)

text \<open>
  \<open>rollback\<close> pops the top frame and runs its actions, last first, on the log as the
  method has left it; the state it ends in does not depend on what the actions do.
\<close>

lemma rollback_top:
  assumes "transaction_stack s = below @ [acts]"
  shows "\<exists>s2. transaction_stack s2 = below \<and>
           (\<forall>w. rollback now s w =
              (fst (run_actions (transaction_log s2) (rev acts) w), s2,
               snd (run_actions (transaction_log s2) (rev acts) w)))"
proof (cases "transaction_log s = []")
  case True
  with assms show ?thesis
    by (intro exI [of _ "s\<lparr>transaction_stack := below\<rparr>"])
       (simp add: rollback_def Let_def split: prod.splits)
next
  case False
  with assms show ?thesis
    by (intro exI [of _ "s\<lparr>transaction_stack := below,
          transaction_log := upd_last (\<lambda>e. e\<lparr>status := ''rolled_back'', end_time := Some now\<rparr>)
            (transaction_log s)\<rparr>"])
       (simp add: rollback_def Let_def split: prod.splits)
qed

lemma rollback_pops: "transaction_stack s = below @ [acts] \<Longrightarrow>
    transaction_stack (fst (snd (rollback t s w))) = below"
  using rollback_top [of s below acts t] by auto

lemma frame_on_top_stack:
  "frame_on_top s0 t0 acts s \<Longrightarrow> transaction_stack s = transaction_stack s0 @ [acts]"
proof (induction rule: frame_on_top.induct)
  case (begun s0 t0)
  show ?case by (simp add: begin_transaction_def)
next
  case (registered s0 t0 acts s a t)
  then show ?case by (simp add: add_rollback_action_def Let_def)
next
  case (noted s0 t0 acts s ty d t)
  then show ?case by (simp add: add_action_def)
next
  case (cleared s0 t0 acts s n t)
  then show ?case by simp
next
  case (nested_commit s0 t0 acts s t1 acts1 s1 t)
  then show ?case by (simp add: commit_pops)
next
  case (nested_rollback s0 t0 acts s t1 acts1 s1 t w)
  then show ?case by (simp add: rollback_pops)
qed

text \<open>
  Running traced actions: the trace grows by the number of each action called, and the
  world changes as it does under the actions themselves.
\<close>

lemma traced_run_ok:
  assumes "\<forall>a \<in> snd ` set ias. \<forall>lg w. fst (a lg w) = None"
  shows "\<exists>w'. run_actions lg (map (\<lambda>(i, a). traced i a) ias) (w, tr) =
           (None, (w', tr @ map fst ias))"
  using assms
proof (induction ias arbitrary: w tr)
  case Nil
  show ?case by simp
next
  case (Cons ia ias)
  obtain i a where ia: "ia = (i, a)" by (cases ia)
  from Cons.prems have "fst (a lg w) = None" by (simp add: ia)
  then obtain w1 where a: "a lg w = (None, w1)" by (cases "a lg w") simp
  from Cons.prems have "\<forall>a \<in> snd ` set ias. \<forall>lg w. fst (a lg w) = None" by simp
  from Cons.IH [OF this, of w1 "tr @ [i]"] obtain w' where
    "run_actions lg (map (\<lambda>(i, a). traced i a) ias) (w1, tr @ [i]) =
       (None, (w', tr @ [i] @ map fst ias))"
    by auto
  then show ?case by (simp add: ia traced_def a)
qed

lemma traced_run_trace:
  "run_actions lg (map (\<lambda>(i, a). traced i a) ias) (w, tr) = (None, wt) \<Longrightarrow>
     snd wt = tr @ map fst ias"
proof (induction ias arbitrary: w tr)
  case Nil
  then show ?case by auto
next
  case (Cons ia ias)
  obtain i a where ia: "ia = (i, a)" by (cases ia)
  obtain r w1 where a: "a lg w = (r, w1)" by (cases "a lg w")
  from Cons.prems have r: "r = None"
    by (cases r) (simp_all add: ia traced_def a)
  with Cons.prems have
    "run_actions lg (map (\<lambda>(i, a). traced i a) ias) (w1, tr @ [i]) = (None, wt)"
    by (simp add: ia traced_def a)
  from Cons.IH [OF this] show ?case by (simp add: ia)
qed

lemma traced_run_untraced:
  "run_actions lg (map snd ias) w = (None, w1) \<Longrightarrow>
     run_actions lg (map (\<lambda>(i, a). traced i a) ias) (w, tr) = (None, (w1, tr @ map fst ias))"
proof (induction ias arbitrary: w tr)
  case Nil
  then show ?case by simp
next
  case (Cons ia ias)
  obtain i a where ia: "ia = (i, a)" by (cases ia)
  obtain r w' where a: "a lg w = (r, w')" by (cases "a lg w")
  from Cons.prems have r: "r = None"
    by (cases r) (simp_all add: ia a)
  with Cons.prems have "run_actions lg (map snd ias) w' = (None, w1)"
    by (simp add: ia a)
  from Cons.IH [OF this, of "tr @ [i]"] show ?case
    by (simp add: ia traced_def a r)
qed

lemma rev_traced_all:
  "rev (traced_all acts) = map (\<lambda>(i, a). traced i a) (rev (enumerate 0 acts))"
  by (simp add: traced_all_def rev_map)

text \<open>
  C2. The actions registered in a frame, in some order, are all run by \<open>rollback\<close>,
  each once, in the reverse of that order. The actions are numbered 0, 1, ... as they
  are registered and each writes its number to a trace when it is called. Whenever
  \<open>rollback\<close> returns normally it has popped the frame and extended the trace by
  n-1, ..., 1, 0; and it returns normally when none of the actions raises. (What
  happens when one raises is C3.)
\<close>

theorem rollback_runs_in_reverse_order:
  assumes "frame_on_top s0 t0 (traced_all acts) s"
  shows "(fst (rollback now s (w, tr)) = None \<longrightarrow>
            (\<exists>s' w'. rollback now s (w, tr) = (None, s', (w', tr @ rev [0..<length acts]))
               \<and> transaction_stack s' = transaction_stack s0))
       \<and> ((\<forall>a \<in> set acts. \<forall>lg w. fst (a lg w) = None) \<longrightarrow>
            fst (rollback now s (w, tr)) = None)"
proof -
  from rollback_top [OF frame_on_top_stack [OF assms], of now] obtain s2 where
    s2: "transaction_stack s2 = transaction_stack s0"
    and rb: "rollback now s (w, tr) =
      (fst (run_actions (transaction_log s2) (rev (traced_all acts)) (w, tr)), s2,
       snd (run_actions (transaction_log s2) (rev (traced_all acts)) (w, tr)))"
    by blast
  let ?run = "run_actions (transaction_log s2) (rev (traced_all acts)) (w, tr)"
  have trace: "map fst (rev (enumerate 0 acts)) = rev [0..<length acts]"
    by (simp add: rev_map [symmetric])
  have normal: "\<exists>s' w'. rollback now s (w, tr) = (None, s', (w', tr @ rev [0..<length acts]))
      \<and> transaction_stack s' = transaction_stack s0"
    if "fst (rollback now s (w, tr)) = None"
  proof -
    from that rb have "?run = (None, snd ?run)" by (simp add: prod_eq_iff)
    from traced_run_trace [OF this [unfolded rev_traced_all]]
    have "snd (snd ?run) = tr @ rev [0..<length acts]" by (simp add: trace rev_traced_all)
    with that rb s2 show ?thesis by (simp add: prod_eq_iff)
  qed
  have quiet: "fst (rollback now s (w, tr)) = None"
    if "\<forall>a \<in> set acts. \<forall>lg w. fst (a lg w) = None"
  proof -
    from that have "\<forall>a \<in> snd ` set (rev (enumerate 0 acts)). \<forall>lg w. fst (a lg w) = None"
      by (auto simp add: in_set_enumerate_eq)
    from traced_run_ok [OF this, of "transaction_log s2" w tr]
    have "fst ?run = None" by (auto simp add: rev_traced_all)
    with rb show ?thesis by simp
  qed
  from normal quiet show ?thesis by blast
qed

text \<open>
  C3. When a compensating action raises during \<open>rollback\<close>, \<open>rollback\<close> raises at once
  a \<open>TransactionError\<close> whose text is \<open>Rollback failed: \<close> and the text of what was
  raised, and no action registered before the failing one is called. Here \<open>b\<close> is the
  action that raises, \<open>post\<close> are the actions registered after it, which run before it
  and take the world from \<open>w\<close> to \<open>w1\<close> without raising, and \<open>pre\<close> are the actions
  registered before it. The frame is popped, the world is as \<open>b\<close> left it, and the
  trace is extended by the numbers of \<open>post\<close>, last first, and then by the number of
  \<open>b\<close>; no number of \<open>pre\<close> is in it.
\<close>

theorem rollback_halts_at_first_failure:
  assumes "frame_on_top s0 t0 (traced_all (pre @ b # post)) s"
      and "\<forall>lg. run_actions lg (rev post) w = (None, w1)"
      and "\<forall>lg. b lg w1 = (Some e, w2)"
  shows "\<exists>s'. rollback now s (w, tr) =
           (Some (Exn TransactionError (''Rollback failed: '' @ str e)), s',
            (w2, tr @ rev [Suc (length pre)..<Suc (length pre) + length post] @ [length pre]))
         \<and> transaction_stack s' = transaction_stack s0"
proof -
  from rollback_top [OF frame_on_top_stack [OF assms(1)], of now] obtain s2 where
    s2: "transaction_stack s2 = transaction_stack s0" and
    rb: "rollback now s (w, tr) =
      (fst (run_actions (transaction_log s2) (rev (traced_all (pre @ b # post))) (w, tr)), s2,
       snd (run_actions (transaction_log s2) (rev (traced_all (pre @ b # post))) (w, tr)))"
    by blast
  let ?L = "transaction_log s2"
  let ?T = "map (\<lambda>(i, a). traced i a)"
  let ?post = "rev (enumerate (Suc (length pre)) post)"
  have split: "rev (traced_all (pre @ b # post)) =
      ?T ?post @ traced (length pre) b # ?T (rev (enumerate 0 pre))"
    by (simp add: traced_all_def enumerate_append_eq rev_map)
  from assms(2) have "run_actions ?L (map snd ?post) w = (None, w1)"
    by (simp add: rev_map [symmetric])
  from traced_run_untraced [OF this, of tr] have post:
    "run_actions ?L (?T ?post) (w, tr) =
       (None, (w1, tr @ rev [Suc (length pre)..<Suc (length pre) + length post]))"
    by (simp add: rev_map [symmetric])
  from assms(3) have b: "b ?L w1 = (Some e, w2)" by blast
  have "run_actions ?L (rev (traced_all (pre @ b # post))) (w, tr) =
      (Some (Exn TransactionError (''Rollback failed: '' @ str e)),
       (w2, tr @ rev [Suc (length pre)..<Suc (length pre) + length post] @ [length pre]))"
    unfolding split run_actions_append post by (simp add: traced_def b)
  with rb s2 show ?thesis by simp
qed

subsection \<open>The context manager\<close>

text \<open>
  C4. When the unit of work raises \<open>e\<close>, the context manager calls \<open>rollback\<close> on the
  state the work has left and then raises a \<open>TransactionError\<close> whose text is
  \<open>Transaction failed: \<close> and the text of \<open>e\<close>; when that \<open>rollback\<close> raises, what it
  raised (a \<open>TransactionError\<close> whose text starts \<open>Rollback failed: \<close>) reaches the caller
  in its place. In both cases the state and the world are those \<open>rollback\<close> has left.
\<close>

theorem transaction_failure_paths:
  assumes "work (begin_transaction t_begin s) w = (Some e, s1, w1)"
  shows "(\<forall>s2 w2. rollback t_end s1 w1 = (None, s2, w2) \<longrightarrow>
            transaction work t_begin t_end s w =
              (Some (Exn TransactionError (''Transaction failed: '' @ str e)), s2, w2))
       \<and> (\<forall>r s2 w2. rollback t_end s1 w1 = (Some r, s2, w2) \<longrightarrow>
            transaction work t_begin t_end s w = (Some r, s2, w2)
            \<and> (\<exists>c. r = Exn TransactionError (''Rollback failed: '' @ str c)))"
proof (intro conjI allI impI)
  fix s2 w2
  assume "rollback t_end s1 w1 = (None, s2, w2)"
  with assms show "transaction work t_begin t_end s w =
      (Some (Exn TransactionError (''Transaction failed: '' @ str e)), s2, w2)"
    by (simp add: transaction_def)
next
  fix r s2 w2
  assume rb: "rollback t_end s1 w1 = (Some r, s2, w2)"
  with assms show "transaction work t_begin t_end s w = (Some r, s2, w2)"
    by (simp add: transaction_def)
  from rb show "\<exists>c. r = Exn TransactionError (''Rollback failed: '' @ str c)"
    by (rule rollback_raises)
qed

text \<open>
  C10. What \<open>rollback\<close> raises when a compensating action raises and what the context
  manager raises when the unit of work fails (and the rollback succeeds) are exceptions
  of one class, \<open>TransactionError\<close>; they differ in their text only, so the class does
  not tell a caller which of the two happened.
\<close>

theorem failures_share_one_class:
  assumes "rollback now s w = (Some x, s', w')"
      and "work (begin_transaction t_begin s0) w0 = (Some e, s1, w1)"
      and "fst (rollback t_end s1 w1) = None"
  shows "\<exists>y. fst (transaction work t_begin t_end s0 w0) = Some y
           \<and> exn_class y = exn_class x \<and> exn_class x = TransactionError \<and> str y \<noteq> str x"
proof -
  from rollback_raises [OF assms(1)] obtain c where
    x: "x = Exn TransactionError (''Rollback failed: '' @ str c)" by blast
  from assms(3) obtain s2 w2 where "rollback t_end s1 w1 = (None, s2, w2)"
    by (cases "rollback t_end s1 w1") auto
  then have "fst (transaction work t_begin t_end s0 w0) =
      Some (Exn TransactionError (''Transaction failed: '' @ str e))"
    using assms(2) by (simp add: transaction_def)
  then show ?thesis by (simp add: x)
qed

subsection \<open>Pruning the log\<close>

text \<open>
  C9. For every log and every number of days \<open>d\<close> for which \<open>now\<close> minus \<open>d\<close> days is a
  \<open>datetime\<close> (\<open>d\<close> within 999999999 days, the cutoff within \<open>datetime.min\<close> and
  \<open>datetime.max\<close>), \<open>clear_logs\<close> returns normally, leaves the stack as it is and keeps
  of the log, in order, exactly the entries whose \<open>start_time\<close> is later than the
  cutoff: it removes those at or before the cutoff, whatever their status. For every
  other \<open>d\<close> it raises OverflowError and changes nothing.
\<close>

theorem clear_logs_removes_up_to_cutoff:
  "(\<bar>d\<bar> \<le> 999999999 \<and> datetime_min \<le> now - d * us_per_day
      \<and> now - d * us_per_day \<le> datetime_max \<longrightarrow>
      (\<exists>s'. clear_logs d now s = (None, s')
         \<and> transaction_stack s' = transaction_stack s
         \<and> transaction_log s' =
             filter (\<lambda>e. \<not> start_time e \<le> now - d * us_per_day) (transaction_log s)))
   \<and> (\<not> (\<bar>d\<bar> \<le> 999999999 \<and> datetime_min \<le> now - d * us_per_day
      \<and> now - d * us_per_day \<le> datetime_max) \<longrightarrow>
      (\<exists>m. clear_logs d now s = (Some (Exn OverflowError m), s)))"
  by (auto simp add: clear_logs_def timedelta_days_def datetime_sub_def not_le)

subsection \<open>The log entry that commit and rollback close\<close>

lemma newest_on_top_shape:
  assumes "newest_on_top s0 t0 acts s"
  shows "transaction_stack s = transaction_stack s0 @ [acts] \<and>
         (\<exists>pre auds. transaction_log s =
            pre @ [\<lparr>start_time = t0, actions = auds, status = ''in_progress'',
                     end_time = None\<rparr>])"
  using assms
proof (induction rule: newest_on_top.induct)
  case newest_begun
  show ?case by (simp add: begin_transaction_def)
next
  case (newest_registered acts s a t)
  then show ?case by (auto simp add: add_rollback_action_def Let_def)
next
  case (newest_noted acts s ty d t)
  then show ?case by (auto simp add: add_action_def)
next
  case (newest_cleared acts s n t s')
  then obtain pre auds where lg: "transaction_log s =
      pre @ [\<lparr>start_time = t0, actions = auds, status = ''in_progress'', end_time = None\<rparr>]"
    by blast
  from newest_cleared(2) obtain c where
    s': "s' = s\<lparr>transaction_log := filter (\<lambda>log. start_time log > c) (transaction_log s)\<rparr>"
    by (auto simp add: clear_logs_def split: sum.splits)
  from newest_cleared(3) have "transaction_log s' = filter (\<lambda>log. start_time log > c) pre @
     [\<lparr>start_time = t0, actions = auds, status = ''in_progress'', end_time = None\<rparr>]"
    unfolding s' by (simp add: lg split: if_splits)
  with newest_cleared.IH show ?case by (simp add: s')
qed

text \<open>
  C8. When the frame on top of the stack is the one begun last and its log entry has
  not been pruned, \<open>rollback\<close> writes \<open>status = rolled_back\<close> and \<open>end_time = now\<close> into
  that entry before it runs any compensating action: the actions are run on the log
  that already holds the entry so written, and whatever they do, fail or not, the log
  \<open>rollback\<close> leaves is that log.
\<close>

theorem rollback_records_before_compensations:
  assumes "newest_on_top s0 t0 acts s"
  shows "\<exists>pre auds.
           transaction_log s =
             pre @ [\<lparr>start_time = t0, actions = auds, status = ''in_progress'',
                      end_time = None\<rparr>]
         \<and> (\<forall>w. rollback now s w =
               (fst (run_actions
                       (pre @ [\<lparr>start_time = t0, actions = auds, status = ''rolled_back'',
                                end_time = Some now\<rparr>]) (rev acts) w),
                s\<lparr>transaction_stack := transaction_stack s0,
                  transaction_log :=
                    pre @ [\<lparr>start_time = t0, actions = auds, status = ''rolled_back'',
                             end_time = Some now\<rparr>]\<rparr>,
                snd (run_actions
                       (pre @ [\<lparr>start_time = t0, actions = auds, status = ''rolled_back'',
                                end_time = Some now\<rparr>]) (rev acts) w)))"
proof -
  from newest_on_top_shape [OF assms] obtain pre auds where
    st: "transaction_stack s = transaction_stack s0 @ [acts]" and
    lg: "transaction_log s =
      pre @ [\<lparr>start_time = t0, actions = auds, status = ''in_progress'', end_time = None\<rparr>]"
    by blast
  show ?thesis
    by (rule exI [of _ pre], rule exI [of _ auds])
       (simp add: lg st rollback_def Let_def split: prod.splits)
qed

text \<open>
  C1. The claim: commit, on a stack that is not empty, pops the top frame and writes
  \<open>status = committed\<close> and \<open>end_time = now\<close> into the log entry of that frame, so that
  in begin; begin; commit; commit each commit closes the entry its own begin made.
  The code writes into \<open>transaction_log[-1]\<close>, the entry of the frame begun last. In
  begin; begin; commit; commit, with the clock at \<open>t1\<close>, \<open>t2\<close>, \<open>t3\<close>, \<open>t4\<close>, the second
  commit pops the outer frame and stamps the entry of the inner one again: the entry
  begun at \<open>t1\<close> stays \<open>in_progress\<close> without an \<open>end_time\<close>, with the stack empty.
\<close>

theorem nested_commit_leaves_outer_entry_open:
  "commit t4 (commit t3 (begin_transaction t2 (begin_transaction t1 init))) =
     \<lparr>transaction_stack = [], rollback_actions = [],
      transaction_log =
        [\<lparr>start_time = t1, actions = [], status = ''in_progress'', end_time = None\<rparr>,
         \<lparr>start_time = t2, actions = [], status = ''committed'', end_time = Some t4\<rparr>]\<rparr>"
  by (simp add: method_defs)

text \<open>
  C5. The claim: an entry that is \<open>committed\<close> or \<open>rolled_back\<close> is never written
  again. After begin; begin; commit the inner entry is \<open>committed\<close> with
  \<open>end_time = t3\<close>; the rollback of the outer frame at \<open>t4\<close> turns that same entry into
  \<open>rolled_back\<close> with \<open>end_time = t4\<close>.
\<close>

theorem rollback_rewrites_committed_entry:
  "commit t3 (begin_transaction t2 (begin_transaction t1 init)) =
     \<lparr>transaction_stack = [[]], rollback_actions = [],
      transaction_log =
        [\<lparr>start_time = t1, actions = [], status = ''in_progress'', end_time = None\<rparr>,
         \<lparr>start_time = t2, actions = [], status = ''committed'', end_time = Some t3\<rparr>]\<rparr>
   \<and> rollback t4 (commit t3 (begin_transaction t2 (begin_transaction t1 init))) w =
     (None,
      \<lparr>transaction_stack = [], rollback_actions = [],
       transaction_log =
         [\<lparr>start_time = t1, actions = [], status = ''in_progress'', end_time = None\<rparr>,
          \<lparr>start_time = t2, actions = [], status = ''rolled_back'', end_time = Some t4\<rparr>]\<rparr>,
      w)"
  by (simp add: method_defs)

subsection \<open>Audit entries\<close>

text \<open>
  C6. The claim: \<open>add_action\<close> changes nothing when the stack is empty, also when the
  log is not. The code tests the log, not the stack: after begin; commit the stack is
  empty and \<open>add_action\<close> appends an entry to the actions of the committed frame.
\<close>

theorem add_action_writes_with_empty_stack:
  "transaction_stack (commit t2 (begin_transaction t1 init)) = []
   \<and> add_action ''create'' d t3 (commit t2 (begin_transaction t1 init)) =
     \<lparr>transaction_stack = [], rollback_actions = [],
      transaction_log =
        [\<lparr>start_time = t1,
          actions = [\<lparr>entry_type = ''create'', details = Some d, timestamp = t3\<rparr>],
          status = ''committed'', end_time = Some t2\<rparr>]\<rparr>"
  by (simp add: method_defs)

text \<open>
  C7. The claim: \<open>add_rollback_action\<close> never raises, also when \<open>clear_logs\<close> has
  removed the log entry of a frame that is still open. With a frame begun at
  2024-01-01 00:00:00, \<open>clear_logs(0)\<close> one second later empties the log and leaves the
  stack; \<open>add_rollback_action\<close> then appends the action to the frame and raises
  IndexError at \<open>self.transaction_log[-1]\<close>.
\<close>

theorem add_rollback_action_raises_on_pruned_log:
  "clear_logs 0 (jan_2024 + second) (begin_transaction jan_2024 init) =
     (None, \<lparr>transaction_stack = [[]], rollback_actions = [], transaction_log = []\<rparr>)
   \<and> add_rollback_action a (jan_2024 + 2 * second)
       (snd (clear_logs 0 (jan_2024 + second) (begin_transaction jan_2024 init))) =
     (Some (Exn IndexError ''list index out of range''),
      \<lparr>transaction_stack = [[a]], rollback_actions = [], transaction_log = []\<rparr>)"
  by (simp add: method_defs clock_defs)

subsection \<open>Examples\<close>

text \<open>
  A, B, C registered in that order, with a nested transaction in between: rollback
  runs C, then B, then A.
\<close>

lemma abc_frame_on_top:
  "frame_on_top init jan_2024
     (traced_all [emit ''A'', emit ''B'', emit ''C'' :: (unit, string list) action]) abc_frame"
proof -
  let ?sA = "snd (add_rollback_action (traced 0 (emit ''A'')) (jan_2024 + second)
               (begin_transaction jan_2024 init)) :: (unit, string list \<times> nat list) manager"
  have "frame_on_top init jan_2024 ([] @ [traced 0 (emit ''A'')]) ?sA"
    by (intro frame_on_top.registered frame_on_top.begun)
  moreover have "frame_on_top ?sA (jan_2024 + 2 * second) []
      (begin_transaction (jan_2024 + 2 * second) ?sA)"
    by (rule frame_on_top.begun)
  ultimately have "frame_on_top init jan_2024 ([] @ [traced 0 (emit ''A'')])
      (commit (jan_2024 + 3 * second) (begin_transaction (jan_2024 + 2 * second) ?sA))"
    by (rule frame_on_top.nested_commit)
  then have "frame_on_top init jan_2024
      ((([] @ [traced 0 (emit ''A'')]) @ [traced 1 (emit ''B'')]) @ [traced 2 (emit ''C'')])
      abc_frame"
    unfolding abc_frame_def by (intro frame_on_top.registered)
  then show ?thesis by (simp add: traced_all_def eval_nat_numeral)
qed

theorem rollback_runs_in_reverse_order_witness:
  "frame_on_top init jan_2024
     (traced_all [emit ''A'', emit ''B'', emit ''C'' :: (unit, string list) action]) abc_frame
   \<and> fst (rollback (jan_2024 + 6 * second) abc_frame ([], [])) = None
   \<and> snd (snd (rollback (jan_2024 + 6 * second) abc_frame ([], []))) =
       ([''C'', ''B'', ''A''], [2, 1, 0])"
proof -
  have quiet: "\<forall>a \<in> set [emit ''A'', emit ''B'', emit ''C'' :: (unit, string list) action].
      \<forall>lg w. fst (a lg w) = None"
    by (simp add: emit_def)
  note inst = rollback_runs_in_reverse_order [OF abc_frame_on_top,
      of "jan_2024 + 6 * second" "[]" "[]"]
  from inst quiet have "fst (rollback (jan_2024 + 6 * second) abc_frame ([], [])) = None"
    by blast
  with inst obtain s' w' where rb: "rollback (jan_2024 + 6 * second) abc_frame ([], []) =
      (None, s', (w', [2, 1, 0]))"
    by (auto simp add: eval_nat_numeral)
  have "fst (snd (snd (rollback (jan_2024 + 6 * second) abc_frame ([], [])))) =
      [''C'', ''B'', ''A'']"
    by (simp add: abc_frame_def method_defs emit_def traced_def)
  with rb have "w' = [''C'', ''B'', ''A'']" by simp
  with rb abc_frame_on_top show ?thesis by (simp add: eval_nat_numeral)
qed

text \<open>A, an action that raises, and C: rollback runs C, then the action that raises, and stops.\<close>

lemma a_boom_c_frame_on_top:
  "frame_on_top init jan_2024
     (traced_all ([emit ''A''] @ failing ''boom'' # [emit ''C'' :: (unit, string list) action]))
     a_boom_c_frame"
proof -
  have "frame_on_top init jan_2024
      ((([] @ [traced 0 (emit ''A'')]) @ [traced 1 (failing ''boom'')]) @ [traced 2 (emit ''C'')])
      a_boom_c_frame"
    unfolding a_boom_c_frame_def by (intro frame_on_top.registered frame_on_top.begun)
  then show ?thesis by (simp add: traced_all_def eval_nat_numeral)
qed

theorem rollback_halts_at_first_failure_witness:
  "frame_on_top init jan_2024
     (traced_all ([emit ''A''] @ failing ''boom'' # [emit ''C'' :: (unit, string list) action]))
     a_boom_c_frame
   \<and> fst (rollback (jan_2024 + 4 * second) a_boom_c_frame ([], [])) =
       Some (Exn TransactionError ''Rollback failed: boom'')
   \<and> snd (snd (rollback (jan_2024 + 4 * second) a_boom_c_frame ([], []))) = ([''C''], [2, 1])"
proof -
  have quiet: "\<forall>lg :: unit log_entry list. run_actions lg (rev [emit ''C'']) [] = (None, [''C''])"
    by (simp add: emit_def)
  have loud: "\<forall>lg :: unit log_entry list. failing ''boom'' lg [''C''] =
      (Some (Exn (OtherException ''RuntimeError'') ''boom''), [''C''])"
    by (simp add: failing_def)
  from rollback_halts_at_first_failure [OF a_boom_c_frame_on_top quiet loud,
      of "jan_2024 + 4 * second" "[]"]
  obtain s' where rb: "rollback (jan_2024 + 4 * second) a_boom_c_frame ([], []) =
      (Some (Exn TransactionError ''Rollback failed: boom''), s', ([''C''], [2, 1]))"
    by (auto simp add: eval_nat_numeral)
  with a_boom_c_frame_on_top show ?thesis by simp
qed

text \<open>
  A unit of work that registers an action and raises ValueError: with an action that
  succeeds the caller gets \<open>Transaction failed\<close>, with one that raises the caller gets
  \<open>Rollback failed\<close>.
\<close>

theorem transaction_failure_paths_witness:
  "transaction (work_raising (emit ''undo'') ''bad input'') jan_2024 (jan_2024 + 2 * second)
     (init :: (unit, string list) manager) [] =
     (Some (Exn TransactionError ''Transaction failed: bad input''),
      \<lparr>transaction_stack = [], rollback_actions = [],
       transaction_log =
         [\<lparr>start_time = jan_2024,
           actions = [\<lparr>entry_type = ''rollback_action'', details = None,
                       timestamp = jan_2024 + second\<rparr>],
           status = ''rolled_back'', end_time = Some (jan_2024 + 2 * second)\<rparr>]\<rparr>,
      [''undo''])
   \<and> fst (transaction (work_raising (failing ''boom'') ''bad input'') jan_2024
          (jan_2024 + 2 * second) (init :: (unit, string list) manager) []) =
       Some (Exn TransactionError ''Rollback failed: boom'')"
proof -
  let ?e = "Exn (OtherException ''ValueError'') ''bad input''"
  let ?s1 = "\<lambda>a. snd (add_rollback_action a (jan_2024 + second)
      (begin_transaction jan_2024 (init :: (unit, string list) manager)))"
  have w1: "work_raising (emit ''undo'') ''bad input'' (begin_transaction jan_2024 init) [] =
      (Some ?e, ?s1 (emit ''undo''), [])"
    by (simp add: work_raising_def)
  have r1: "rollback (jan_2024 + 2 * second) (?s1 (emit ''undo'')) [] =
      (None,
       \<lparr>transaction_stack = [], rollback_actions = [],
        transaction_log =
          [\<lparr>start_time = jan_2024,
            actions = [\<lparr>entry_type = ''rollback_action'', details = None,
                        timestamp = jan_2024 + second\<rparr>],
            status = ''rolled_back'', end_time = Some (jan_2024 + 2 * second)\<rparr>]\<rparr>,
       [''undo''])"
    by (simp add: method_defs emit_def)
  have w2: "work_raising (failing ''boom'') ''bad input'' (begin_transaction jan_2024 init) [] =
      (Some ?e, ?s1 (failing ''boom''), [])"
    by (simp add: work_raising_def)
  have r2: "rollback (jan_2024 + 2 * second) (?s1 (failing ''boom'')) [] =
      (Some (Exn TransactionError ''Rollback failed: boom''),
       fst (snd (rollback (jan_2024 + 2 * second) (?s1 (failing ''boom'')) [])), [])"
    by (simp add: method_defs failing_def)
  note p1 = transaction_failure_paths [where work = "work_raising (emit ''undo'') ''bad input''"
      and t_begin = jan_2024 and s = init and w = "[]" and t_end = "jan_2024 + 2 * second",
      OF w1, THEN conjunct1, rule_format, OF r1]
  note p2 = transaction_failure_paths [where work = "work_raising (failing ''boom'') ''bad input''"
      and t_begin = jan_2024 and s = init and w = "[]" and t_end = "jan_2024 + 2 * second",
      OF w2, THEN conjunct2, rule_format, OF r2, THEN conjunct1]
  from p1 p2 show ?thesis by simp
qed

text \<open>
  The two failures side by side: a rollback whose action raises, and a unit of work
  that raises with a rollback that succeeds.
\<close>

theorem failures_share_one_class_witness:
  "\<exists>y. fst (transaction (work_raising (emit ''undo'') ''bad input'') jan_2024
           (jan_2024 + 2 * second) (init :: (unit, string list) manager) []) = Some y
       \<and> exn_class y = exn_class (Exn TransactionError ''Rollback failed: boom'')
       \<and> exn_class (Exn TransactionError ''Rollback failed: boom'') = TransactionError
       \<and> str y \<noteq> str (Exn TransactionError ''Rollback failed: boom'')"
proof -
  let ?s1 = "\<lambda>a. snd (add_rollback_action a (jan_2024 + second)
      (begin_transaction jan_2024 (init :: (unit, string list) manager)))"
  have rb: "rollback (jan_2024 + 2 * second) (?s1 (failing ''boom'')) [] =
      (Some (Exn TransactionError ''Rollback failed: boom''),
       fst (snd (rollback (jan_2024 + 2 * second) (?s1 (failing ''boom'')) [])), [])"
    by (simp add: method_defs failing_def)
  have wk: "work_raising (emit ''undo'') ''bad input'' (begin_transaction jan_2024 init) [] =
      (Some (Exn (OtherException ''ValueError'') ''bad input''), ?s1 (emit ''undo''), [])"
    by (simp add: work_raising_def)
  have ok: "fst (rollback (jan_2024 + 2 * second) (?s1 (emit ''undo'')) []) = None"
    by (simp add: method_defs emit_def)
  from failures_share_one_class [where work = "work_raising (emit ''undo'') ''bad input''"
      and t_begin = jan_2024 and ?s0.0 = init and ?w0.0 = "[]", OF rb wk ok]
  show ?thesis .
qed

text \<open>
  Frames begun 40 days and 5 days before now: \<open>clear_logs(30)\<close> removes the first and
  keeps the second; \<open>clear_logs(-3000000)\<close>, whose cutoff is past the year 9999, raises
  OverflowError.
\<close>

theorem clear_logs_removes_up_to_cutoff_witness:
  "fst (clear_logs 30 jan_2024 old_and_recent) = None
   \<and> transaction_stack (snd (clear_logs 30 jan_2024 old_and_recent)) = []
   \<and> transaction_log (snd (clear_logs 30 jan_2024 old_and_recent)) =
       [\<lparr>start_time = jan_2024 - 5 * us_per_day, actions = [], status = ''committed'',
         end_time = Some (jan_2024 - 5 * us_per_day + second)\<rparr>]
   \<and> (\<exists>m. clear_logs (- 3000000) jan_2024 old_and_recent =
         (Some (Exn OverflowError m), old_and_recent))"
proof -
  have "\<bar>30 :: int\<bar> \<le> 999999999 \<and> datetime_min \<le> jan_2024 - 30 * us_per_day
      \<and> jan_2024 - 30 * us_per_day \<le> datetime_max"
    by (simp add: clock_defs)
  from clear_logs_removes_up_to_cutoff [of 30 jan_2024 old_and_recent, THEN conjunct1,
      rule_format, OF this]
  obtain s' where "clear_logs 30 jan_2024 old_and_recent = (None, s')"
    and "transaction_stack s' = transaction_stack old_and_recent"
    and "transaction_log s' =
      filter (\<lambda>e. \<not> start_time e \<le> jan_2024 - 30 * us_per_day) (transaction_log old_and_recent)"
    by blast
  then have kept: "fst (clear_logs 30 jan_2024 old_and_recent) = None
     \<and> transaction_stack (snd (clear_logs 30 jan_2024 old_and_recent)) = []
     \<and> transaction_log (snd (clear_logs 30 jan_2024 old_and_recent)) =
       [\<lparr>start_time = jan_2024 - 5 * us_per_day, actions = [], status = ''committed'',
         end_time = Some (jan_2024 - 5 * us_per_day + second)\<rparr>]"
    by (simp add: old_and_recent_def method_defs clock_defs)
  have "\<not> (\<bar>- 3000000 :: int\<bar> \<le> 999999999
      \<and> datetime_min \<le> jan_2024 - (- 3000000) * us_per_day
      \<and> jan_2024 - (- 3000000) * us_per_day \<le> datetime_max)"
    by (simp add: clock_defs)
  from clear_logs_removes_up_to_cutoff [of "- 3000000" jan_2024 old_and_recent,
      THEN conjunct2, rule_format, OF this] kept
  show ?thesis by blast
qed

text \<open>
  A frame begun exactly 30 days before now is removed by \<open>clear_logs(30)\<close>, although
  its \<open>start_time\<close> is the cutoff and not older than it; and \<open>clear_logs(1000000000)\<close>
  raises OverflowError and removes nothing.
\<close>

theorem clear_logs_boundary_counterexample:
  "transaction_log (commit (jan_2024 - 30 * us_per_day + second)
       (begin_transaction (jan_2024 - 30 * us_per_day) (init :: (unit, unit) manager))) =
     [\<lparr>start_time = jan_2024 - 30 * us_per_day, actions = [], status = ''committed'',
       end_time = Some (jan_2024 - 30 * us_per_day + second)\<rparr>]
   \<and> \<not> jan_2024 - 30 * us_per_day < jan_2024 - 30 * us_per_day
   \<and> clear_logs 30 jan_2024
       (commit (jan_2024 - 30 * us_per_day + second)
         (begin_transaction (jan_2024 - 30 * us_per_day) (init :: (unit, unit) manager))) =
     (None, \<lparr>transaction_stack = [], rollback_actions = [], transaction_log = []\<rparr>)
   \<and> clear_logs 1000000000 jan_2024 (old_and_recent :: (unit, unit) manager) =
     (Some (Exn OverflowError ''days out of range; must have magnitude <= 999999999''),
      old_and_recent)"
  by (simp add: method_defs clock_defs)

text \<open>
  An action that notes the statuses it finds in the log and raises: it finds
  \<open>rolled_back\<close>, and the log keeps the entry so although rollback has failed.
\<close>

lemma probing_frame_newest:
  "newest_on_top init jan_2024 [probe_failing ''boom''] probing_frame"
proof -
  have "newest_on_top (init :: (unit, string list) manager) jan_2024
      ([] @ [probe_failing ''boom'']) probing_frame"
    unfolding probing_frame_def by (intro newest_on_top.intros)
  then show ?thesis by simp
qed

theorem rollback_records_before_compensations_witness:
  "newest_on_top init jan_2024 [probe_failing ''boom''] probing_frame
   \<and> rollback (jan_2024 + 2 * second) probing_frame [] =
     (Some (Exn TransactionError ''Rollback failed: boom''),
      \<lparr>transaction_stack = [], rollback_actions = [],
       transaction_log =
         [\<lparr>start_time = jan_2024,
           actions = [\<lparr>entry_type = ''rollback_action'', details = None,
                       timestamp = jan_2024 + second\<rparr>],
           status = ''rolled_back'', end_time = Some (jan_2024 + 2 * second)\<rparr>]\<rparr>,
      [''rolled_back''])"
proof -
  from rollback_records_before_compensations [OF probing_frame_newest,
      of "jan_2024 + 2 * second"]
  obtain pre auds where
    lg: "transaction_log probing_frame =
      pre @ [\<lparr>start_time = jan_2024, actions = auds, status = ''in_progress'',
               end_time = None\<rparr>]" and
    rb: "rollback (jan_2024 + 2 * second) probing_frame [] =
      (fst (run_actions
              (pre @ [\<lparr>start_time = jan_2024, actions = auds, status = ''rolled_back'',
                       end_time = Some (jan_2024 + 2 * second)\<rparr>])
              (rev [probe_failing ''boom'']) []),
       probing_frame\<lparr>transaction_stack := transaction_stack init,
         transaction_log :=
           pre @ [\<lparr>start_time = jan_2024, actions = auds, status = ''rolled_back'',
                    end_time = Some (jan_2024 + 2 * second)\<rparr>]\<rparr>,
       snd (run_actions
              (pre @ [\<lparr>start_time = jan_2024, actions = auds, status = ''rolled_back'',
                       end_time = Some (jan_2024 + 2 * second)\<rparr>])
              (rev [probe_failing ''boom'']) []))"
    by blast
  have "transaction_log probing_frame =
      [] @ [\<lparr>start_time = jan_2024,
              actions = [\<lparr>entry_type = ''rollback_action'', details = None,
                          timestamp = jan_2024 + second\<rparr>],
              status = ''in_progress'', end_time = None\<rparr>]"
    by (simp add: probing_frame_def method_defs)
  with lg have "pre = []" and
    "auds = [\<lparr>entry_type = ''rollback_action'', details = None, timestamp = jan_2024 + second\<rparr>]"
    by simp_all
  with rb probing_frame_newest show ?thesis
    by (simp add: probing_frame_def method_defs probe_failing_def)
qed

text \<open>
  Two rollbacks that fail and leave no record on the entry of the frame they pop.
  In the first the entry has been pruned: the log is empty before and after. In the
  second a nested transaction was begun and committed above the frame: the entry of
  the popped frame, begun at 2024-01-01 00:00:00, stays \<open>in_progress\<close> without an
  \<open>end_time\<close>, and the entry of the nested transaction is written instead.
\<close>

theorem rollback_unrecorded_counterexample:
  "rollback (jan_2024 + 3 * second)
     (snd (clear_logs 0 (jan_2024 + 2 * second)
       (snd (add_rollback_action (failing ''boom'') (jan_2024 + second)
         (begin_transaction jan_2024 (init :: (unit, unit) manager)))))) () =
     (Some (Exn TransactionError ''Rollback failed: boom''),
      \<lparr>transaction_stack = [], rollback_actions = [], transaction_log = []\<rparr>, ())
   \<and> fst (rollback (jan_2024 + 4 * second)
       (snd (add_rollback_action (failing ''boom'') (jan_2024 + 3 * second)
         (commit (jan_2024 + 2 * second)
           (begin_transaction (jan_2024 + second)
             (begin_transaction jan_2024 (init :: (unit, unit) manager)))))) ()) =
     Some (Exn TransactionError ''Rollback failed: boom'')
   \<and> transaction_log (fst (snd (rollback (jan_2024 + 4 * second)
       (snd (add_rollback_action (failing ''boom'') (jan_2024 + 3 * second)
         (commit (jan_2024 + 2 * second)
           (begin_transaction (jan_2024 + second)
             (begin_transaction jan_2024 (init :: (unit, unit) manager)))))) ()))) =
     [\<lparr>start_time = jan_2024, actions = [], status = ''in_progress'', end_time = None\<rparr>,
      \<lparr>start_time = jan_2024 + second,
       actions = [\<lparr>entry_type = ''rollback_action'', details = None,
                   timestamp = jan_2024 + 3 * second\<rparr>],
       status = ''rolled_back'', end_time = Some (jan_2024 + 4 * second)\<rparr>]"
  by (simp add: method_defs clock_defs failing_def)

end
